theory Spec2Isabelle
  imports Main "HOL-Library.Char_ord" "HOL-Library.List_Lexorder" "HOL-Library.Sublist"
begin

section \<open>Cells, strings and errors\<close>

text \<open>
  A worksheet cell as \<^verbatim>\<open>pd.read_excel(..., header=None)\<close> delivers it: a missing value
  (an empty cell, read as NaN), a text, or a number. Numbers are modelled as integers;
  floating point numbers, dates and booleans are outside this model, and so is the
  conversion of the integers of a column to floats that pandas may make when the column
  has missing values. Strings are lists of bytes; whitespace and letter case are the
  ASCII ones.
\<close>

datatype cell = NaN | Str string | Num int

text \<open>
  The exceptions of \<^verbatim>\<open>parse_pivot_rules\<close>. \<open>HeaderNotFound\<close> is the
  \<^verbatim>\<open>ValueError("Header row not found in the Excel sheet.")\<close> of line 16; \<open>KeyError\<close> is
  raised by \<^verbatim>\<open>df[col]\<close> for a label that is not a column; \<open>AttributeError\<close> is raised
  by the \<^verbatim>\<open>.str\<close> accessor on a series without string values. \<open>NonUniqueLabel\<close> marks
  the inputs this model does not follow further: for a label that occurs twice pandas
  selects a sub-frame instead of a series, and the series operations of the program
  (\<^verbatim>\<open>.str\<close>, \<^verbatim>\<open>.unique()\<close>, the comparison with a selected value) do not apply to it.
\<close>

datatype error = HeaderNotFound | KeyError string | AttributeError | NonUniqueLabel string

definition is_space :: "char \<Rightarrow> bool" where
  "is_space c = (let n = (of_char c :: nat) in (9 \<le> n \<and> n \<le> 13) \<or> (28 \<le> n \<and> n \<le> 32))"

definition lstrip :: "string \<Rightarrow> string" where
  "lstrip s = dropWhile is_space s"

definition rstrip :: "string \<Rightarrow> string" where
  "rstrip s = rev (dropWhile is_space (rev s))"

text \<open>\<^verbatim>\<open>str.strip()\<close>\<close>

definition strip :: "string \<Rightarrow> string" where
  "strip s = rstrip (lstrip s)"

definition lower_char :: "char \<Rightarrow> char" where
  "lower_char c = (let n = (of_char c :: nat) in if 65 \<le> n \<and> n \<le> 90 then char_of (n + 32) else c)"

definition lower :: "string \<Rightarrow> string" where
  "lower s = map lower_char s"

text \<open>\<^verbatim>\<open>re.search\<close> of a pattern without special characters: the pattern occurs somewhere.\<close>

fun search :: "string \<Rightarrow> string \<Rightarrow> bool" where
  "search pat [] = (pat = [])"
| "search pat (c # cs) = (take (length pat) (c # cs) = pat \<or> search pat cs)"

text \<open>\<^verbatim>\<open>re.search(pat, s, flags=re.IGNORECASE)\<close> for such a pattern.\<close>

definition contains_nocase :: "string \<Rightarrow> string \<Rightarrow> bool" where
  "contains_nocase pat s = search (lower pat) (lower s)"

definition grand_total :: string where
  "grand_total = ''Grand Total''"

definition digit_char :: "nat \<Rightarrow> char" where
  "digit_char d = char_of (48 + d)"

fun digits :: "nat \<Rightarrow> string" where
  "digits n = (if n < 10 then [digit_char n] else digits (n div 10) @ [digit_char (n mod 10)])"

definition str_of_int :: "int \<Rightarrow> string" where
  "str_of_int i = (if i < 0 then CHR ''-'' # digits (nat (- i)) else digits (nat i))"

text \<open>\<^verbatim>\<open>astype(str)\<close> on one value.\<close>

fun astype_str :: "cell \<Rightarrow> string" where
  "astype_str NaN = ''nan''"
| "astype_str (Str s) = s"
| "astype_str (Num i) = str_of_int i"

text \<open>\<^verbatim>\<open>sep.join(xs)\<close>\<close>

fun join :: "string \<Rightarrow> string list \<Rightarrow> string" where
  "join sep [] = []"
| "join sep [x] = x"
| "join sep (x # y # ys) = x @ sep @ join sep (y # ys)"

section \<open>The raw sheet and the header row\<close>

type_synonym grid = "cell list list"

definition width :: "grid \<Rightarrow> nat" where
  "width g = foldr max (map length g) 0"

definition pad :: "nat \<Rightarrow> cell list \<Rightarrow> cell list" where
  "pad n r = r @ replicate (n - length r) NaN"

text \<open>The frame \<^verbatim>\<open>df_raw\<close>: the sheet as a rectangle, short rows filled with NaN.\<close>

definition read_excel :: "grid \<Rightarrow> grid" where
  "read_excel g = map (pad (width g)) g"

text \<open>The test of line 11 on one row.\<close>

definition is_header :: "cell list \<Rightarrow> bool" where
  "is_header r = (Str ''Segment'' \<in> set r \<and> Str ''Supplier / Product'' \<in> set r)"

text \<open>The loop of lines 9 to 13, from row index \<open>i\<close> on.\<close>

fun find_header :: "nat \<Rightarrow> grid \<Rightarrow> nat option" where
  "find_header i [] = None"
| "find_header i (r # rs) = (if is_header r then Some i else find_header (Suc i) rs)"

text \<open>\<^verbatim>\<open>df.columns.str.strip()\<close>: a label that is not a text becomes NaN.\<close>

fun strip_label :: "cell \<Rightarrow> cell" where
  "strip_label (Str s) = Str (strip s)"
| "strip_label c = NaN"

definition key_cols :: "string list" where
  "key_cols = [''Segment'', ''Modules(tags)'', ''Hosting'', ''Orientation'',
     ''Regulatory focus (typical)'', ''AU support'', ''Impl'', ''Proj$'', ''Lic$ (p.a.)'']"

definition supplier_col :: string where
  "supplier_col = ''Supplier / Product''"

definition positions :: "string \<Rightarrow> cell list \<Rightarrow> nat list" where
  "positions name labels = [i \<leftarrow> [0..<length labels]. labels ! i = Str name]"

text \<open>
  The labels the program selects by name: the first one that is missing raises the
  KeyError of \<^verbatim>\<open>df[col]\<close> (lines 38 and 41, in that order); a repeated one ends the model.
\<close>

definition check_labels :: "cell list \<Rightarrow> error option" where
  "check_labels labels =
     (case [c \<leftarrow> key_cols @ [supplier_col]. positions c labels = []] of
        c # _ \<Rightarrow> Some (KeyError c)
      | [] \<Rightarrow>
        (case [c \<leftarrow> key_cols @ [supplier_col]. 1 < length (positions c labels)] of
           c # _ \<Rightarrow> Some (NonUniqueLabel c)
         | [] \<Rightarrow> None))"

section \<open>Rows of the table\<close>

text \<open>
  One data row, with the ten columns the program selects by label as fields and the
  cells of all other columns, in sheet order, in \<open>rest\<close>. The supplier is a cell in the
  rows read from the sheet and a string from line 42 on.
\<close>

record 's row =
  segment :: cell
  modules_tags :: cell
  hosting :: cell
  orientation :: cell
  regulatory_focus :: cell
  au_support :: cell
  impl_time :: cell
  proj_budget :: cell
  lic_budget :: cell
  supplier :: 's
  rest :: "cell list"

definition cell_at :: "cell list \<Rightarrow> nat \<Rightarrow> cell" where
  "cell_at r i = (if i < length r then r ! i else NaN)"

definition labelled :: "cell list \<Rightarrow> string \<Rightarrow> cell list \<Rightarrow> cell" where
  "labelled labels name r = (case positions name labels of [] \<Rightarrow> NaN | i # _ \<Rightarrow> cell_at r i)"

definition other_positions :: "cell list \<Rightarrow> nat list" where
  "other_positions labels =
     [i \<leftarrow> [0..<length labels]. labels ! i \<notin> Str ` set (key_cols @ [supplier_col])]"

definition to_row :: "cell list \<Rightarrow> cell list \<Rightarrow> cell row" where
  "to_row labels r =
     \<lparr> segment = labelled labels ''Segment'' r,
       modules_tags = labelled labels ''Modules(tags)'' r,
       hosting = labelled labels ''Hosting'' r,
       orientation = labelled labels ''Orientation'' r,
       regulatory_focus = labelled labels ''Regulatory focus (typical)'' r,
       au_support = labelled labels ''AU support'' r,
       impl_time = labelled labels ''Impl'' r,
       proj_budget = labelled labels ''Proj$'' r,
       lic_budget = labelled labels ''Lic$ (p.a.)'' r,
       supplier = labelled labels ''Supplier / Product'' r,
       rest = map (cell_at r) (other_positions labels) \<rparr>"

text \<open>\<^verbatim>\<open>df[name]\<close> for the nine key columns, read row by row.\<close>

definition col :: "string \<Rightarrow> 's row \<Rightarrow> cell" where
  "col name r =
     (if name = ''Segment'' then segment r
      else if name = ''Modules(tags)'' then modules_tags r
      else if name = ''Hosting'' then hosting r
      else if name = ''Orientation'' then orientation r
      else if name = ''Regulatory focus (typical)'' then regulatory_focus r
      else if name = ''AU support'' then au_support r
      else if name = ''Impl'' then impl_time r
      else if name = ''Proj$'' then proj_budget r
      else if name = ''Lic$ (p.a.)'' then lic_budget r
      else NaN)"

definition set_col :: "string \<Rightarrow> cell \<Rightarrow> 's row \<Rightarrow> 's row" where
  "set_col name v r =
     (if name = ''Segment'' then r\<lparr>segment := v\<rparr>
      else if name = ''Modules(tags)'' then r\<lparr>modules_tags := v\<rparr>
      else if name = ''Hosting'' then r\<lparr>hosting := v\<rparr>
      else if name = ''Orientation'' then r\<lparr>orientation := v\<rparr>
      else if name = ''Regulatory focus (typical)'' then r\<lparr>regulatory_focus := v\<rparr>
      else if name = ''AU support'' then r\<lparr>au_support := v\<rparr>
      else if name = ''Impl'' then r\<lparr>impl_time := v\<rparr>
      else if name = ''Proj$'' then r\<lparr>proj_budget := v\<rparr>
      else if name = ''Lic$ (p.a.)'' then r\<lparr>lic_budget := v\<rparr>
      else r)"

text \<open>\<^verbatim>\<open>df[name] = values\<close>\<close>

definition assign :: "string \<Rightarrow> cell list \<Rightarrow> 's row list \<Rightarrow> 's row list" where
  "assign name vals df = map (\<lambda>(v, r). set_col name v r) (zip vals df)"

section \<open>Normalisation: \<^verbatim>\<open>parse_pivot_rules\<close>\<close>

text \<open>
  \<^verbatim>\<open>Series.fillna(method='ffill')\<close>, as a scan from the top that carries the last value
  seen that is not missing.
\<close>

fun ffill :: "cell \<Rightarrow> cell list \<Rightarrow> cell list" where
  "ffill carry [] = []"
| "ffill carry (c # cs) = (if c = NaN then carry # ffill carry cs else c # ffill c cs)"

text \<open>Line 38, for one column, and the loop of line 37 over the key columns.\<close>

definition ffill_step :: "string \<Rightarrow> 's row list \<Rightarrow> 's row list" where
  "ffill_step c df = assign c (ffill NaN (map (col c) df)) df"

definition ffill_keys :: "'s row list \<Rightarrow> 's row list" where
  "ffill_keys df = fold ffill_step key_cols df"

text \<open>Line 42: the supplier as a stripped string.\<close>

definition strip_supplier :: "cell row \<Rightarrow> string row" where
  "strip_supplier r =
     \<lparr> segment = segment r, modules_tags = modules_tags r, hosting = hosting r,
       orientation = orientation r, regulatory_focus = regulatory_focus r,
       au_support = au_support r, impl_time = impl_time r, proj_budget = proj_budget r,
       lic_budget = lic_budget r, supplier = strip (astype_str (supplier r)),
       rest = rest r \<rparr>"

fun is_text :: "cell \<Rightarrow> bool" where
  "is_text (Str s) = True"
| "is_text c = False"

text \<open>
  The \<^verbatim>\<open>.str\<close> accessor accepts an object series whose values, NaN apart, are none at
  all, all strings, or strings mixed with numbers; it raises on numbers alone. (A column
  of missing values only is taken as accepted, as it is while the column keeps its
  object type.)
\<close>

definition str_accessor_ok :: "cell list \<Rightarrow> bool" where
  "str_accessor_ok xs = (let vs = [x \<leftarrow> xs. x \<noteq> NaN] in vs = [] \<or> list_ex is_text vs)"

text \<open>\<^verbatim>\<open>.str.contains("Grand Total", case=False, na=False)\<close> on one value.\<close>

fun str_contains_grand_total :: "cell \<Rightarrow> bool" where
  "str_contains_grand_total (Str s) = contains_nocase grand_total s"
| "str_contains_grand_total c = False"

text \<open>A frame with its index: each row with its index label.\<close>

type_synonym frame = "(nat \<times> string row) list"

text \<open>\<^verbatim>\<open>reset_index(drop=True)\<close>\<close>

definition reset_index :: "'a list \<Rightarrow> (nat \<times> 'a) list" where
  "reset_index df = zip [0..<length df] df"

text \<open>
  \<^verbatim>\<open>drop_duplicates()\<close>: a row equal in all columns to an earlier one is dropped; the
  rows kept keep their index labels. Two missing values count as equal.
\<close>

fun drop_dups :: "'a list \<Rightarrow> (nat \<times> 'a) list \<Rightarrow> (nat \<times> 'a) list" where
  "drop_dups seen [] = []"
| "drop_dups seen ((i, r) # df) =
     (if r \<in> set seen then drop_dups seen df else (i, r) # drop_dups (r # seen) df)"

definition drop_duplicates :: "(nat \<times> 'a) list \<Rightarrow> (nat \<times> 'a) list" where
  "drop_duplicates df = drop_dups [] df"

text \<open>Lines 41 to 46, on the rows after the forward fill.\<close>

definition supplier_rows :: "cell row list \<Rightarrow> string row list" where
  "supplier_rows df =
     (let df1 = filter (\<lambda>r. supplier r \<noteq> NaN) df;
          df2 = map strip_supplier df1;
          df3 = filter (\<lambda>r. supplier r \<noteq> []) df2
      in filter (\<lambda>r. \<not> contains_nocase grand_total (supplier r)) df3)"

text \<open>
  Lines 6 to 20: the header row found, the labels of the columns and the data rows.
\<close>

definition header_and_data :: "grid \<Rightarrow> error + cell list \<times> grid" where
  "header_and_data g =
     (let df_raw = read_excel g in
      case find_header 0 df_raw of
        None \<Rightarrow> Inl HeaderNotFound
      | Some h \<Rightarrow> Inr (map strip_label (df_raw ! h), drop (Suc h) df_raw))"

definition parse_pivot_rules :: "grid \<Rightarrow> error + frame" where
  "parse_pivot_rules g =
     (case header_and_data g of
        Inl e \<Rightarrow> Inl e
      | Inr (labels, data) \<Rightarrow>
          (case check_labels labels of
             Some e \<Rightarrow> Inl e
           | None \<Rightarrow>
               let df = supplier_rows (ffill_keys (map (to_row labels) data)) in
               if \<not> str_accessor_ok (map segment df) then Inl AttributeError
               else Inr (drop_duplicates (reset_index
                      (filter (\<lambda>r. \<not> str_contains_grand_total (segment r)) df)))))"

section \<open>Selection and filtering\<close>

text \<open>
  The five widget values of the session state. A single-select widget holds the empty
  string or one of the values of its column; the multi-select widget holds a list.
\<close>

record selection =
  seg_widget :: cell
  mod_widget :: "cell list"
  host_widget :: cell
  orient_widget :: cell
  reg_widget :: cell

text \<open>The state after \<^verbatim>\<open>reset_filters\<close>, which is also the initial one (lines 68 to 83).\<close>

definition reset_filters :: selection where
  "reset_filters =
     \<lparr> seg_widget = Str [], mod_widget = [], host_widget = Str [], orient_widget = Str [],
       reg_widget = Str [] \<rparr>"

text \<open>Python's truth value of a widget value.\<close>

fun truthy :: "cell \<Rightarrow> bool" where
  "truthy (Str s) = (s \<noteq> [])"
| "truthy (Num i) = (i \<noteq> 0)"
| "truthy NaN = True"

datatype answer = Value cell | Values "cell list"

fun truthy_answer :: "answer \<Rightarrow> bool" where
  "truthy_answer (Value v) = truthy v"
| "truthy_answer (Values vs) = (vs \<noteq> [])"

text \<open>
  Lines 119 to 129: the dictionary of the active criteria, in insertion order. It holds
  a list under the key of the module column and a single value under every other key.
\<close>

definition user_strategic_answers :: "selection \<Rightarrow> (string \<times> answer) list" where
  "user_strategic_answers st =
     (if truthy (seg_widget st) then [(''Segment'', Value (seg_widget st))] else []) @
     (if mod_widget st \<noteq> [] then [(''Modules(tags)'', Values (mod_widget st))] else []) @
     (if truthy (host_widget st) then [(''Hosting'', Value (host_widget st))] else []) @
     (if truthy (orient_widget st) then [(''Orientation'', Value (orient_widget st))] else []) @
     (if truthy (reg_widget st)
      then [(''Regulatory focus (typical)'', Value (reg_widget st))] else [])"

text \<open>
  One element of \<^verbatim>\<open>current_df[key] == value\<close>: a missing value equals nothing, a string
  equals the same string only.
\<close>

definition series_eq :: "cell \<Rightarrow> cell \<Rightarrow> bool" where
  "series_eq c v = (c \<noteq> NaN \<and> c = v)"

text \<open>
  The mask of lines 171 and 176 on one row: \<^verbatim>\<open>isin\<close> for the list of the module
  column, equality for a single value. The dictionary holds a list under the key of the
  module column only, so the test on the key in line 167 is the test on the shape of
  the value.
\<close>

fun keeps :: "string \<Rightarrow> answer \<Rightarrow> 's row \<Rightarrow> bool" where
  "keeps key (Values vs) r = (col key r \<in> set vs)"
| "keeps key (Value v) r = series_eq (col key r) v"

text \<open>The body of the loop of line 166.\<close>

definition filter_step :: "string \<times> answer \<Rightarrow> (nat \<times> 's row) list \<Rightarrow> (nat \<times> 's row) list" where
  "filter_step kv df =
     (if truthy_answer (snd kv) then filter (\<lambda>ir. keeps (fst kv) (snd kv) (snd ir)) df else df)"

text \<open>Lines 164 to 179: \<^verbatim>\<open>filtered_df\<close>.\<close>

definition matching :: "frame \<Rightarrow> selection \<Rightarrow> frame" where
  "matching df st = fold filter_step (user_strategic_answers st) df"

section \<open>Aggregation and display\<close>

record agg_row =
  agg_supplier :: string
  agg_au_support :: string
  agg_impl_time :: string
  agg_proj_budget :: string
  agg_lic_budget :: string

record agg_frame =
  agg_columns :: "string list"
  agg_rows :: "agg_row list"

text \<open>The aggregation function of lines 186 to 189 on the values of one group.\<close>

definition joined :: "cell list \<Rightarrow> string" where
  "joined x = join '', '' (sort (remdups (map astype_str (filter (\<lambda>c. c \<noteq> NaN) x))))"

text \<open>\<^verbatim>\<open>groupby("Supplier / Product")\<close>: the groups in the order of their sorted keys.\<close>

definition groupby :: "frame \<Rightarrow> (string \<times> string row list) list" where
  "groupby df =
     map (\<lambda>k. (k, [r \<leftarrow> map snd df. supplier r = k])) (sort (remdups (map (\<lambda>ir. supplier (snd ir)) df)))"

definition agg :: "(string \<times> string row list) list \<Rightarrow> agg_row list" where
  "agg groups =
     map (\<lambda>(k, rs).
        \<lparr> agg_supplier = k,
          agg_au_support = joined (map au_support rs),
          agg_impl_time = joined (map impl_time rs),
          agg_proj_budget = joined (map proj_budget rs),
          agg_lic_budget = joined (map lic_budget rs) \<rparr>) groups"

definition rename :: "(string \<times> string) list \<Rightarrow> string list \<Rightarrow> string list" where
  "rename m cs = map (\<lambda>c. case map_of m c of None \<Rightarrow> c | Some c' \<Rightarrow> c') cs"

text \<open>Lines 182 to 206: \<^verbatim>\<open>aggregated_df\<close>.\<close>

definition aggregate :: "frame \<Rightarrow> agg_frame" where
  "aggregate filtered =
     (if filtered \<noteq> [] then
        let a = \<lparr> agg_columns = [''Supplier / Product'', ''AU support'', ''Impl'', ''Proj$'',
                     ''Lic$ (p.a.)''],
                  agg_rows = agg (groupby filtered) \<rparr>;
            b = a\<lparr> agg_columns :=
                     rename [(''AU support'', ''AU Support''), (''Impl'', ''Impl. Time''),
                       (''Proj$'', ''Proj. Budget''), (''Lic$ (p.a.)'', ''Lic. Budget (p.a.)'')]
                       (agg_columns a) \<rparr>
        in b\<lparr> agg_rows := sort_key agg_supplier (agg_rows b) \<rparr>
      else
        \<lparr> agg_columns = [''Supplier / Product'', ''AU Support'', ''Impl. Time'',
             ''Proj. Budget'', ''Lic. Budget (p.a.)''],
          agg_rows = [] \<rparr>)"

text \<open>
  What lines 212 to 220 show: the prompt to select a criterion, the warning that nothing
  matches, or the number of suppliers found and their table.
\<close>

datatype display = Info | Warning | Success nat agg_frame

definition display_results :: "selection \<Rightarrow> agg_frame \<Rightarrow> display" where
  "display_results st a =
     (if user_strategic_answers st = [] then Info
      else if agg_rows a = [] then Warning
      else Success (length (agg_rows a)) a)"

text \<open>One run of the script from line 116 on, for the table loaded and the session state.\<close>

record run =
  filtered_df :: frame
  aggregated_df :: agg_frame
  shown :: display

definition script :: "frame \<Rightarrow> selection \<Rightarrow> run" where
  "script df st =
     (let filtered = matching df st;
          aggregated = aggregate filtered
      in \<lparr> filtered_df = filtered, aggregated_df = aggregated,
           shown = display_results st aggregated \<rparr>)"

section \<open>Sample data\<close>

definition sample_header :: "cell list" where
  "sample_header =
     [Str ''Segment'', Str ''Modules(tags)'', Str ''Hosting'', Str ''Orientation'',
      Str ''Regulatory focus (typical)'', Str ''Supplier / Product'', Str ''AU support'',
      Str ''Impl'', Str ''Proj$'', Str ''Lic$ (p.a.)'', Str ''Notes'']"

text \<open>
  A sheet with a title row, merged cells, a repeated row, a supplier to be trimmed and a
  summary row.
\<close>

definition sample_grid :: grid where
  "sample_grid =
     [[Str ''Pivot''],
      sample_header,
      [Str ''Finance'', Str ''Risk'', Str ''Cloud'', NaN, Str ''APRA'', Str ''Beta'',
       Str ''Yes'', Str ''3m'', Num 100],
      [NaN, Str ''Audit'', NaN, NaN, NaN, Str '' Acme ''],
      [NaN, Str ''Audit'', NaN, NaN, NaN, Str '' Acme ''],
      [NaN, Str ''Risk'', NaN, NaN, NaN, Str ''Acme'', Str ''No''],
      [Str ''finance'', NaN, NaN, NaN, NaN, Str ''Acme'', Str ''Yes''],
      [Str ''Grand Total'', NaN, NaN, NaN, NaN, Str ''Zed'']]"

text \<open>The data rows of the sample sheet, before the forward fill.\<close>

definition sample_data :: "cell row list" where
  "sample_data = map (to_row sample_header) (drop 2 (read_excel sample_grid))"

text \<open>A sheet whose header row has the two marker labels and no other.\<close>

definition sample_short_grid :: grid where
  "sample_short_grid = [[Str ''Segment'', Str ''Supplier / Product'']]"

definition sample_row :: "string \<Rightarrow> string \<Rightarrow> string \<Rightarrow> string \<Rightarrow> string row" where
  "sample_row s seg m au =
     \<lparr> segment = Str seg, modules_tags = Str m, hosting = Str ''Cloud'', orientation = NaN,
       regulatory_focus = Str ''APRA'', au_support = Str au, impl_time = Str ''3m'',
       proj_budget = Num 100, lic_budget = NaN, supplier = s, rest = [NaN] \<rparr>"

text \<open>The table that \<^verbatim>\<open>parse_pivot_rules\<close> makes of the sample sheet.\<close>

definition sample_df :: frame where
  "sample_df =
     [(0, sample_row ''Beta'' ''Finance'' ''Risk'' ''Yes''),
      (1, sample_row ''Acme'' ''Finance'' ''Audit'' ''Yes''),
      (3, sample_row ''Acme'' ''Finance'' ''Risk'' ''No''),
      (4, sample_row ''Acme'' ''finance'' ''Risk'' ''Yes'')]"

definition sample_selection :: selection where
  "sample_selection = reset_filters\<lparr> seg_widget := Str ''Finance'' \<rparr>"

definition sample_no_match :: selection where
  "sample_no_match = sample_selection\<lparr> mod_widget := [Str ''Privacy''] \<rparr>"

text \<open>
  A table with a detail cell that holds a single space, and the sheet it is read from.
\<close>

definition sample_blank_grid :: grid where
  "sample_blank_grid =
     [sample_header,
      [Str ''Finance'', Str ''Risk'', Str ''Cloud'', NaN, Str ''APRA'', Str ''Acme'',
       Str '' '', Str ''3m'', Num 100],
      [NaN, Str ''Audit'', NaN, NaN, NaN, Str ''Acme'', Str ''Yes'']]"

definition sample_blank_data :: "cell row list" where
  "sample_blank_data = map (to_row sample_header) (drop 1 (read_excel sample_blank_grid))"

definition sample_blank_df :: frame where
  "sample_blank_df =
     [(0, sample_row ''Acme'' ''Finance'' ''Risk'' '' ''),
      (1, sample_row ''Acme'' ''Finance'' ''Audit'' ''Yes'')]"

section \<open>The values of a detail field\<close>

text \<open>
  A blank value, in the words of the specification: a missing value, or a string that is
  empty after trimming.
\<close>

fun blank :: "cell \<Rightarrow> bool" where
  "blank NaN = True"
| "blank (Str s) = (strip s = [])"
| "blank (Num i) = False"

text \<open>
  The set of the distinct non-blank string values of the detail field \<open>f\<close> over the rows
  of supplier \<open>name\<close> in a table, as the specification words it.
\<close>

definition nonblank_values :: "(string row \<Rightarrow> cell) \<Rightarrow> string \<Rightarrow> frame \<Rightarrow> string set" where
  "nonblank_values f name df =
     {astype_str (f (snd ir)) | ir.
        ir \<in> set df \<and> supplier (snd ir) = name \<and> \<not> blank (f (snd ir))}"

text \<open>
  The set of the distinct string values of the detail field \<open>f\<close> over the rows of
  supplier \<open>name\<close> that are present, that is not missing: an empty string and a string of
  spaces are among them.
\<close>

definition present_values :: "(string row \<Rightarrow> cell) \<Rightarrow> string \<Rightarrow> frame \<Rightarrow> string set" where
  "present_values f name df =
     {astype_str (f (snd ir)) | ir.
        ir \<in> set df \<and> supplier (snd ir) = name \<and> f (snd ir) \<noteq> NaN}"

text \<open>The row of the supplier \<open>k\<close> of a table, made of the values present.\<close>

definition details :: "frame \<Rightarrow> string \<Rightarrow> agg_row" where
  "details df k =
     \<lparr> agg_supplier = k,
       agg_au_support = join '', '' (sorted_list_of_set (present_values au_support k df)),
       agg_impl_time = join '', '' (sorted_list_of_set (present_values impl_time k df)),
       agg_proj_budget = join '', '' (sorted_list_of_set (present_values proj_budget k df)),
       agg_lic_budget = join '', '' (sorted_list_of_set (present_values lic_budget k df)) \<rparr>"

section \<open>Properties of the filter loop\<close>

lemma fold_filter_step:
  "fold filter_step kvs df =
     filter (\<lambda>ir. \<forall>kv\<in>set kvs. truthy_answer (snd kv) \<longrightarrow> keeps (fst kv) (snd kv) (snd ir)) df"
proof (induction kvs arbitrary: df)
  case Nil
  show ?case by simp
next
  case (Cons kv kvs)
  have "fold filter_step (kv # kvs) df = fold filter_step kvs (filter_step kv df)"
    by simp
  also have "\<dots> =
      filter (\<lambda>ir. \<forall>kv\<in>set kvs. truthy_answer (snd kv) \<longrightarrow> keeps (fst kv) (snd kv) (snd ir))
        (filter_step kv df)"
    by (rule Cons.IH)
  also have "\<dots> =
      filter (\<lambda>ir. \<forall>kv\<in>set (kv # kvs). truthy_answer (snd kv) \<longrightarrow> keeps (fst kv) (snd kv) (snd ir))
        df"
  proof (cases "truthy_answer (snd kv)")
    case True
    then show ?thesis
      by (simp add: filter_step_def conj_commute)
  next
    case False
    then show ?thesis
      by (simp add: filter_step_def)
  qed
  finally show ?case .
qed

lemma ball_answers:
  "(\<forall>kv\<in>set (user_strategic_answers st). P kv) \<longleftrightarrow>
     (truthy (seg_widget st) \<longrightarrow> P (''Segment'', Value (seg_widget st))) \<and>
     (mod_widget st \<noteq> [] \<longrightarrow> P (''Modules(tags)'', Values (mod_widget st))) \<and>
     (truthy (host_widget st) \<longrightarrow> P (''Hosting'', Value (host_widget st))) \<and>
     (truthy (orient_widget st) \<longrightarrow> P (''Orientation'', Value (orient_widget st))) \<and>
     (truthy (reg_widget st) \<longrightarrow> P (''Regulatory focus (typical)'', Value (reg_widget st)))"
  by (simp add: user_strategic_answers_def ball_Un)

lemma answers_truthy:
  "\<forall>kv\<in>set (user_strategic_answers st). truthy_answer (snd kv)"
  unfolding ball_answers by simp

lemma matching_filter:
  "matching df st =
     filter (\<lambda>ir. \<forall>kv\<in>set (user_strategic_answers st). keeps (fst kv) (snd kv) (snd ir)) df"
  unfolding matching_def fold_filter_step
  using answers_truthy[of st] by (intro filter_cong refl) blast

lemma filtered_df_script: "filtered_df (script df st) = matching df st"
  by (simp add: script_def Let_def)

lemma aggregated_df_script: "aggregated_df (script df st) = aggregate (matching df st)"
  by (simp add: script_def Let_def)

lemma shown_script: "shown (script df st) = display_results st (aggregate (matching df st))"
  by (simp add: script_def Let_def)

text \<open>
  Claim C1. For every table and every selection, the filtered table consists of exactly
  the rows that satisfy all active predicates together: for each single-select widget
  with a value, the value of the row in that column equals the selected value (for two
  strings this is equality of the strings, with no folding of case), and for a
  non-empty multi-select list, the module tag of the row is a member of the list.
\<close>

theorem filter_keeps_rows_matching_all_predicates:
  "filtered_df (script df st) =
     filter (\<lambda>ir.
        (truthy (seg_widget st) \<longrightarrow> series_eq (segment (snd ir)) (seg_widget st)) \<and>
        (mod_widget st \<noteq> [] \<longrightarrow> modules_tags (snd ir) \<in> set (mod_widget st)) \<and>
        (truthy (host_widget st) \<longrightarrow> series_eq (hosting (snd ir)) (host_widget st)) \<and>
        (truthy (orient_widget st) \<longrightarrow> series_eq (orientation (snd ir)) (orient_widget st)) \<and>
        (truthy (reg_widget st) \<longrightarrow> series_eq (regulatory_focus (snd ir)) (reg_widget st))) df
   \<and> (series_eq (Str a) (Str b) \<longleftrightarrow> a = b)"
  unfolding filtered_df_script matching_filter ball_answers
  by (simp add: col_def series_eq_def)

theorem filter_keeps_rows_matching_all_predicates_witness:
  "map fst (filtered_df (script sample_df sample_selection)) = [0, 1, 3]"
  using filter_keeps_rows_matching_all_predicates[of sample_df sample_selection]
  by (simp add: sample_df_def sample_selection_def reset_filters_def sample_row_def series_eq_def)

text \<open>
  Claim C10. Filtering never changes a row: the filtered table is a subsequence of the
  table loaded, so each of its rows is a row of that table, with its index label and
  all its fields.
\<close>

theorem filter_only_removes_rows:
  "subseq (filtered_df (script df st)) df \<and> (\<forall>ir\<in>set (filtered_df (script df st)). ir \<in> set df)"
  by (simp add: filtered_df_script matching_filter)

theorem filter_only_removes_rows_witness:
  "subseq (filtered_df (script sample_df sample_selection)) sample_df \<and>
   length (filtered_df (script sample_df sample_selection)) \<le> length sample_df"
  using filter_only_removes_rows[of sample_df sample_selection]
  by (auto dest: list_emb_length)

text \<open>
  Claim C8. Filtering is monotonic: when the dictionary of active criteria of a second
  selection holds all entries of the first and one more, the second filtered table has
  no more rows than the first.
\<close>

theorem filter_monotonic:
  assumes "set (user_strategic_answers st) \<subseteq> set (user_strategic_answers st')"
    and "length (user_strategic_answers st') = Suc (length (user_strategic_answers st))"
  shows "length (filtered_df (script df st')) \<le> length (filtered_df (script df st))"
proof -
  have "filtered_df (script df st') =
      filter (\<lambda>ir. \<forall>kv\<in>set (user_strategic_answers st'). keeps (fst kv) (snd kv) (snd ir))
        (filtered_df (script df st))"
    unfolding filtered_df_script matching_filter filter_filter
    using assms(1) by (intro filter_cong refl) blast
  then show ?thesis by simp
qed

theorem filter_monotonic_witness:
  "user_strategic_answers reset_filters = [] \<and>
   user_strategic_answers sample_selection = [(''Segment'', Value (Str ''Finance''))] \<and>
   length (filtered_df (script sample_df sample_selection))
     \<le> length (filtered_df (script sample_df reset_filters))"
proof -
  have a: "user_strategic_answers reset_filters = []"
    by (simp add: user_strategic_answers_def reset_filters_def)
  have b: "user_strategic_answers sample_selection = [(''Segment'', Value (Str ''Finance''))]"
    by (simp add: user_strategic_answers_def sample_selection_def reset_filters_def)
  show ?thesis
    using filter_monotonic[of reset_filters sample_selection sample_df] a b by simp
qed

section \<open>Properties of the aggregation and the display\<close>

lemma agg_columns_aggregate:
  "agg_columns (aggregate f) =
     [''Supplier / Product'', ''AU Support'', ''Impl. Time'', ''Proj. Budget'', ''Lic. Budget (p.a.)'']"
  by (simp add: aggregate_def rename_def Let_def)

lemma aggregate_Nil:
  "aggregate [] = \<lparr> agg_columns = [''Supplier / Product'', ''AU Support'', ''Impl. Time'',
             ''Proj. Budget'', ''Lic. Budget (p.a.)''], agg_rows = [] \<rparr>"
  by (simp add: aggregate_def)

text \<open>
  Claim C9. When at least one predicate is active and no row survives the filter, the
  aggregated table is an empty table with the five output columns, the same columns as
  the aggregated table of any other run, and the warning is shown.
\<close>

theorem empty_result_has_output_columns:
  assumes "user_strategic_answers st \<noteq> []" and "filtered_df (script df st) = []"
  shows "aggregated_df (script df st) =
           \<lparr> agg_columns = [''Supplier / Product'', ''AU Support'', ''Impl. Time'',
               ''Proj. Budget'', ''Lic. Budget (p.a.)''], agg_rows = [] \<rparr>
         \<and> agg_columns (aggregated_df (script df' st')) = agg_columns (aggregated_df (script df st))
         \<and> shown (script df st) = Warning"
  using assms
  by (simp add: filtered_df_script aggregated_df_script shown_script aggregate_Nil
      agg_columns_aggregate display_results_def)

lemma sample_no_match_filtered: "filtered_df (script sample_df sample_no_match) = []"
  by (simp add: filtered_df_script matching_filter ball_answers sample_no_match_def sample_selection_def
      reset_filters_def sample_df_def sample_row_def col_def series_eq_def)

theorem empty_result_has_output_columns_witness:
  "user_strategic_answers sample_no_match \<noteq> [] \<and>
   filtered_df (script sample_df sample_no_match) = [] \<and>
   agg_rows (aggregated_df (script sample_df sample_no_match)) = [] \<and>
   agg_columns (aggregated_df (script sample_df sample_selection))
     = agg_columns (aggregated_df (script sample_df sample_no_match))"
proof -
  have a: "user_strategic_answers sample_no_match \<noteq> []"
    by (simp add: user_strategic_answers_def sample_no_match_def sample_selection_def reset_filters_def)
  show ?thesis
    using empty_result_has_output_columns[OF a sample_no_match_filtered,
        of sample_df sample_selection]
      a sample_no_match_filtered
    by simp
qed

text \<open>
  Claim C5, as the program has it. With no active predicate the prompt to select a
  criterion is shown and no table. The filtered table is then the whole table, and the
  aggregation is computed all the same, over the whole table; its result is not shown.
\<close>

theorem no_selection_shows_prompt:
  assumes "user_strategic_answers st = []"
  shows "shown (script df st) = Info \<and> filtered_df (script df st) = df \<and>
         aggregated_df (script df st) = aggregate df"
  using assms
  by (simp add: filtered_df_script aggregated_df_script shown_script matching_def display_results_def)

lemma reset_no_answers: "user_strategic_answers reset_filters = []"
  by (simp add: user_strategic_answers_def reset_filters_def)

lemma agg_sample: "map agg_supplier (agg_rows (aggregate sample_df)) = [''Acme'', ''Beta'']"
  by code_simp

theorem no_selection_shows_prompt_witness:
  "user_strategic_answers reset_filters = [] \<and> shown (script sample_df reset_filters) = Info \<and>
   filtered_df (script sample_df reset_filters) = sample_df"
  using no_selection_shows_prompt[OF reset_no_answers, of sample_df] reset_no_answers by simp

text \<open>
  Claim C5 as stated fails: in the state with no selection the aggregation is performed,
  here on the sample table, whose two suppliers are aggregated.
\<close>

theorem no_selection_aggregation_is_computed:
  "user_strategic_answers reset_filters = [] \<and>
   map agg_supplier (agg_rows (aggregated_df (script sample_df reset_filters))) = [''Acme'', ''Beta'']"
  by (simp add: reset_no_answers aggregated_df_script matching_def agg_sample)

lemma joined_present_values:
  "joined (map f [r \<leftarrow> map snd df. supplier r = k]) =
     join '', '' (sorted_list_of_set (present_values f k df))"
proof -
  have "set (map astype_str (filter (\<lambda>c. c \<noteq> NaN) (map f [r \<leftarrow> map snd df. supplier r = k])))
      = present_values f k df"
    by (fastforce simp: present_values_def image_iff)
  then show ?thesis
    by (simp add: joined_def sorted_list_of_set_sort_remdups[symmetric] del: set_map set_filter)
qed

lemma agg_groupby:
  "agg (groupby df) = map (details df) (sort (remdups (map (\<lambda>ir. supplier (snd ir)) df)))"
  by (simp add: agg_def groupby_def details_def joined_present_values comp_def)

lemma agg_supplier_details: "map agg_supplier (map (details df) ks) = ks"
  by (induction ks) (simp_all add: details_def)

lemma agg_rows_aggregate:
  assumes "df \<noteq> []"
  shows "agg_rows (aggregate df) = map (details df) (sort (remdups (map (\<lambda>ir. supplier (snd ir)) df)))"
proof -
  let ?ks = "sort (remdups (map (\<lambda>ir. supplier (snd ir)) df))"
  have "sorted (map agg_supplier (map (details df) ?ks))"
    unfolding agg_supplier_details by simp
  then have "sort_key agg_supplier (map (details df) ?ks) = map (details df) ?ks"
    by (rule sort_key_id_if_sorted)
  with assms show ?thesis
    by (simp add: aggregate_def Let_def agg_groupby)
qed

text \<open>
  Claim C2, as the program has it. For a filtered table that is not empty, the
  aggregated table has exactly one row for each supplier name of the filtered table, in
  ascending order of the names, and each of its four detail fields is the sorted list of
  the distinct string values of that field that are not missing in the rows of the
  supplier, joined with a comma and a space. Only missing values are left out: a value
  that is empty or holds only whitespace is listed like any other.
\<close>

theorem aggregation_one_row_per_supplier:
  fixes df st
  defines "filtered \<equiv> filtered_df (script df st)"
    and "out \<equiv> agg_rows (aggregated_df (script df st))"
  assumes "filtered \<noteq> []"
  shows "distinct (map agg_supplier out) \<and>
         set (map agg_supplier out) = (\<lambda>ir. supplier (snd ir)) ` set filtered \<and>
         sorted (map agg_supplier out) \<and>
         (\<forall>a\<in>set out.
            agg_au_support a = join '', '' (sorted_list_of_set (present_values au_support (agg_supplier a) filtered)) \<and>
            agg_impl_time a = join '', '' (sorted_list_of_set (present_values impl_time (agg_supplier a) filtered)) \<and>
            agg_proj_budget a = join '', '' (sorted_list_of_set (present_values proj_budget (agg_supplier a) filtered)) \<and>
            agg_lic_budget a = join '', '' (sorted_list_of_set (present_values lic_budget (agg_supplier a) filtered)))"
proof -
  let ?ks = "sort (remdups (map (\<lambda>ir. supplier (snd ir)) filtered))"
  have "agg_rows (aggregate filtered) = map (details filtered) ?ks"
    using assms(3) by (rule agg_rows_aggregate)
  then have rows: "out = map (details filtered) ?ks"
    by (simp add: out_def filtered_def aggregated_df_script filtered_df_script)
  have names: "map agg_supplier out = ?ks"
    unfolding rows by (rule agg_supplier_details)
  have "\<forall>a\<in>set (map (details filtered) ?ks).
            agg_au_support a = join '', '' (sorted_list_of_set (present_values au_support (agg_supplier a) filtered)) \<and>
            agg_impl_time a = join '', '' (sorted_list_of_set (present_values impl_time (agg_supplier a) filtered)) \<and>
            agg_proj_budget a = join '', '' (sorted_list_of_set (present_values proj_budget (agg_supplier a) filtered)) \<and>
            agg_lic_budget a = join '', '' (sorted_list_of_set (present_values lic_budget (agg_supplier a) filtered))"
    by (auto simp: details_def)
  then show ?thesis
    unfolding names unfolding rows by simp
qed

lemma sample_filtered:
  "filtered_df (script sample_df sample_selection) =
     [(0, sample_row ''Beta'' ''Finance'' ''Risk'' ''Yes''),
      (1, sample_row ''Acme'' ''Finance'' ''Audit'' ''Yes''),
      (3, sample_row ''Acme'' ''Finance'' ''Risk'' ''No'')]"
  by (simp add: filtered_df_script matching_filter ball_answers sample_selection_def
      reset_filters_def sample_df_def sample_row_def col_def series_eq_def)

lemma sample_aggregated:
  "agg_rows (aggregate [(0, sample_row ''Beta'' ''Finance'' ''Risk'' ''Yes''),
      (1, sample_row ''Acme'' ''Finance'' ''Audit'' ''Yes''),
      (3, sample_row ''Acme'' ''Finance'' ''Risk'' ''No'')]) =
     [\<lparr> agg_supplier = ''Acme'', agg_au_support = ''No, Yes'', agg_impl_time = ''3m'',
        agg_proj_budget = ''100'', agg_lic_budget = [] \<rparr>,
      \<lparr> agg_supplier = ''Beta'', agg_au_support = ''Yes'', agg_impl_time = ''3m'',
        agg_proj_budget = ''100'', agg_lic_budget = [] \<rparr>]"
  by code_simp

theorem aggregation_one_row_per_supplier_witness:
  "filtered_df (script sample_df sample_selection) \<noteq> [] \<and>
   map agg_supplier (agg_rows (aggregated_df (script sample_df sample_selection))) = [''Acme'', ''Beta''] \<and>
   join '', '' (sorted_list_of_set
      (present_values au_support ''Acme'' (filtered_df (script sample_df sample_selection)))) = ''No, Yes''"
proof -
  let ?f = "filtered_df (script sample_df sample_selection)"
  have ne: "?f \<noteq> []" by (simp add: sample_filtered)
  have rows: "agg_rows (aggregated_df (script sample_df sample_selection)) =
     [\<lparr> agg_supplier = ''Acme'', agg_au_support = ''No, Yes'', agg_impl_time = ''3m'',
        agg_proj_budget = ''100'', agg_lic_budget = [] \<rparr>,
      \<lparr> agg_supplier = ''Beta'', agg_au_support = ''Yes'', agg_impl_time = ''3m'',
        agg_proj_budget = ''100'', agg_lic_budget = [] \<rparr>]"
    using sample_aggregated by (simp add: aggregated_df_script filtered_df_script[symmetric] sample_filtered)
  define a where "a = \<lparr> agg_supplier = ''Acme'', agg_au_support = ''No, Yes'',
        agg_impl_time = ''3m'', agg_proj_budget = ''100'', agg_lic_budget = [] \<rparr>"
  have m: "a \<in> set (agg_rows (aggregated_df (script sample_df sample_selection)))"
    unfolding rows a_def by simp
  from aggregation_one_row_per_supplier[OF ne] m
  have "agg_au_support a =
      join '', '' (sorted_list_of_set (present_values au_support (agg_supplier a) ?f))"
    by blast
  then have "join '', '' (sorted_list_of_set (present_values au_support (agg_supplier a) ?f)) =
      agg_au_support a"
    by (rule sym)
  also have "agg_au_support a = ''No, Yes''" by (simp add: a_def)
  finally have "join '', '' (sorted_list_of_set (present_values au_support ''Acme'' ?f)) = ''No, Yes''"
    by (simp add: a_def)
  with ne rows show ?thesis by simp
qed

lemma sample_check_labels: "check_labels sample_header = None"
  by code_simp

lemma sample_blank_header_and_data:
  "header_and_data sample_blank_grid = Inr (sample_header, drop 1 (read_excel sample_blank_grid))"
  by code_simp

lemma sample_blank_str_accessor_ok:
  "str_accessor_ok (map segment (supplier_rows (ffill_keys sample_blank_data)))"
  by code_simp

lemma sample_blank_rows:
  "drop_duplicates (reset_index (filter (\<lambda>r. \<not> str_contains_grand_total (segment r))
      (supplier_rows (ffill_keys sample_blank_data)))) = sample_blank_df"
  by code_simp

lemma parse_sample_blank: "parse_pivot_rules sample_blank_grid = Inr sample_blank_df"
  by (simp only: parse_pivot_rules_def sample_blank_header_and_data sum.case prod.case
      sample_check_labels option.case Let_def sample_blank_data_def[symmetric]
      sample_blank_str_accessor_ok not_True_eq_False if_False sample_blank_rows)

lemma sample_blank_filtered:
  "filtered_df (script sample_blank_df sample_selection) = sample_blank_df"
  by (simp add: filtered_df_script matching_filter ball_answers sample_selection_def
      reset_filters_def sample_blank_df_def sample_row_def col_def series_eq_def)

lemma sample_blank_aggregated:
  "map agg_au_support (agg_rows (aggregate sample_blank_df)) = ['' , Yes'']"
  by code_simp

lemma strip_space: "strip '' '' = []"
  by (simp add: strip_def lstrip_def rstrip_def is_space_def)

lemma strip_Yes: "strip ''Yes'' = ''Yes''"
  by (simp add: strip_def lstrip_def rstrip_def is_space_def)

lemma sample_blank_nonblank_values:
  "nonblank_values au_support ''Acme'' sample_blank_df = {''Yes''}"
proof
  show "nonblank_values au_support ''Acme'' sample_blank_df \<subseteq> {''Yes''}"
  proof
    fix x assume "x \<in> nonblank_values au_support ''Acme'' sample_blank_df"
    then obtain ir where ir: "ir \<in> set sample_blank_df" "\<not> blank (au_support (snd ir))"
      "x = astype_str (au_support (snd ir))"
      unfolding nonblank_values_def by blast
    from ir(1) consider "ir = (0, sample_row ''Acme'' ''Finance'' ''Risk'' '' '')"
      | "ir = (1, sample_row ''Acme'' ''Finance'' ''Audit'' ''Yes'')"
      by (auto simp: sample_blank_df_def)
    then show "x \<in> {''Yes''}"
    proof cases
      case 1
      with ir(2) show ?thesis by (simp add: sample_row_def strip_space)
    next
      case 2
      with ir(3) show ?thesis by (simp add: sample_row_def)
    qed
  qed
next
  let ?ir = "(1::nat, sample_row ''Acme'' ''Finance'' ''Audit'' ''Yes'')"
  have "''Yes'' = astype_str (au_support (snd ?ir)) \<and> ?ir \<in> set sample_blank_df \<and>
      supplier (snd ?ir) = ''Acme'' \<and> \<not> blank (au_support (snd ?ir))"
    by (simp add: sample_blank_df_def sample_row_def strip_Yes)
  then have "\<exists>ir. ''Yes'' = astype_str (au_support (snd ir)) \<and> ir \<in> set sample_blank_df \<and>
      supplier (snd ir) = ''Acme'' \<and> \<not> blank (au_support (snd ir))"
    by (rule exI)
  then have "''Yes'' \<in> nonblank_values au_support ''Acme'' sample_blank_df"
    by (simp only: nonblank_values_def mem_Collect_eq)
  then show "{''Yes''} \<subseteq> nonblank_values au_support ''Acme'' sample_blank_df"
    by simp
qed

text \<open>
  Claim C2 as stated fails. The sample sheet with a detail cell that holds a single space
  is parsed into a table of two rows of one supplier; with the segment selected both rows
  are kept, and the aggregated field lists the space as a value, where the non-blank
  values of the field are the one value \<open>Yes\<close>.
\<close>

theorem aggregation_lists_whitespace_value:
  "parse_pivot_rules sample_blank_grid = Inr sample_blank_df \<and>
   filtered_df (script sample_blank_df sample_selection) = sample_blank_df \<and>
   sample_blank_df \<noteq> [] \<and>
   map agg_au_support (agg_rows (aggregated_df (script sample_blank_df sample_selection)))
     = ['' , Yes''] \<and>
   join '', '' (sorted_list_of_set (nonblank_values au_support ''Acme'' sample_blank_df))
     = ''Yes''"
proof -
  have "aggregated_df (script sample_blank_df sample_selection) = aggregate sample_blank_df"
    using sample_blank_filtered by (simp add: aggregated_df_script filtered_df_script)
  then have "map agg_au_support
      (agg_rows (aggregated_df (script sample_blank_df sample_selection))) = ['' , Yes'']"
    by (simp only: sample_blank_aggregated)
  moreover have "sample_blank_df \<noteq> []" by (simp add: sample_blank_df_def)
  moreover have "join '', '' (sorted_list_of_set
      (nonblank_values au_support ''Acme'' sample_blank_df)) = ''Yes''"
    by (simp add: sample_blank_nonblank_values)
  ultimately show ?thesis using parse_sample_blank sample_blank_filtered by simp
qed

section \<open>Properties of the normalisation\<close>

lemma is_header_pad: "is_header (pad n r) = is_header r"
  by (auto simp: is_header_def pad_def)

lemma find_header_None: "find_header i g = None \<longleftrightarrow> (\<forall>r\<in>set g. \<not> is_header r)"
  by (induction g arbitrary: i) auto

lemma find_header_Some:
  "find_header i g = Some h \<Longrightarrow>
     i \<le> h \<and> h - i < length g \<and> is_header (g ! (h - i)) \<and> (\<forall>j<h - i. \<not> is_header (g ! j))"
proof (induction g arbitrary: i)
  case Nil
  then show ?case by simp
next
  case (Cons r rs)
  show ?case
  proof (cases "is_header r")
    case True
    with Cons.prems show ?thesis by simp
  next
    case False
    with Cons.prems have fh: "find_header (Suc i) rs = Some h" by simp
    from Cons.IH[OF fh] have ih: "Suc i \<le> h" "h - Suc i < length rs"
      "is_header (rs ! (h - Suc i))" "\<forall>j<h - Suc i. \<not> is_header (rs ! j)" by auto
    have eq: "h - i = Suc (h - Suc i)" using ih(1) by arith
    show ?thesis
    proof (intro conjI allI impI)
      show "i \<le> h" using ih(1) by arith
      show "h - i < length (r # rs)" using ih(2) eq by simp
      show "is_header ((r # rs) ! (h - i))" using ih(3) eq by simp
      fix j assume "j < h - i"
      then show "\<not> is_header ((r # rs) ! j)"
        using False ih(4) eq by (cases j) auto
    qed
  qed
qed

lemma find_header_pad: "find_header i (map (pad n) g) = find_header i g"
  by (induction g arbitrary: i) (auto simp: is_header_pad)

lemma header_and_data_Inl:
  "header_and_data g = Inl e \<longleftrightarrow> e = HeaderNotFound \<and> find_header 0 g = None"
  by (cases "find_header 0 g")
     (auto simp: header_and_data_def read_excel_def find_header_pad Let_def)

lemma header_and_data_Inr:
  "header_and_data g = Inr ld \<longleftrightarrow>
     (\<exists>h. find_header 0 g = Some h \<and>
        ld = (map strip_label (read_excel g ! h), drop (Suc h) (read_excel g)))"
  by (cases "find_header 0 g")
     (auto simp: header_and_data_def read_excel_def find_header_pad Let_def)

lemma check_labels_not_HeaderNotFound: "check_labels l \<noteq> Some HeaderNotFound"
  by (auto simp: check_labels_def split: list.splits)

lemma parse_HeaderNotFound:
  "parse_pivot_rules g = Inl HeaderNotFound \<longleftrightarrow> (\<forall>r\<in>set g. \<not> is_header r)"
proof (cases "header_and_data g")
  case (Inl e)
  then have "e = HeaderNotFound" "\<forall>r\<in>set g. \<not> is_header r"
    by (simp_all add: header_and_data_Inl find_header_None)
  with Inl show ?thesis
    by (simp add: parse_pivot_rules_def)
next
  case (Inr ld)
  obtain l d where ld: "ld = (l, d)" by (cases ld)
  from Inr obtain h where "find_header 0 g = Some h"
    by (auto simp: header_and_data_Inr)
  then have ex: "\<not> (\<forall>r\<in>set g. \<not> is_header r)"
    using find_header_None[of 0 g] by simp
  have "parse_pivot_rules g \<noteq> Inl HeaderNotFound"
    using Inr ld check_labels_not_HeaderNotFound[of l]
    by (cases "check_labels l") (auto simp: parse_pivot_rules_def Let_def)
  with ex show ?thesis by simp
qed

lemma header_first:
  assumes "\<exists>r\<in>set g. is_header r"
  shows "\<exists>h<length g. is_header (g ! h) \<and> (\<forall>j<h. \<not> is_header (g ! j)) \<and>
      header_and_data g =
        Inr (map strip_label (pad (width g) (g ! h)), map (pad (width g)) (drop (Suc h) g))"
proof -
  from assms have "find_header 0 g \<noteq> None" by (simp add: find_header_None)
  then obtain h where h: "find_header 0 g = Some h" by blast
  from find_header_Some[OF h] have p: "h < length g" "is_header (g ! h)"
    "\<forall>j<h. \<not> is_header (g ! j)" by simp_all
  have "header_and_data g =
      Inr (map strip_label (read_excel g ! h), drop (Suc h) (read_excel g))"
    using h by (simp add: header_and_data_Inr)
  then have "header_and_data g =
        Inr (map strip_label (pad (width g) (g ! h)), map (pad (width g)) (drop (Suc h) g))"
    using p(1) by (simp add: read_excel_def drop_map)
  with p show ?thesis by blast
qed

lemma sample_header_and_data:
  "header_and_data sample_grid = Inr (sample_header, drop 2 (read_excel sample_grid))"
  by code_simp
lemma sample_str_accessor_ok:
  "str_accessor_ok (map segment (supplier_rows (ffill_keys sample_data)))"
  by code_simp
lemma sample_rows:
  "drop_duplicates (reset_index (filter (\<lambda>r. \<not> str_contains_grand_total (segment r))
      (supplier_rows (ffill_keys sample_data)))) = sample_df"
  by code_simp
lemma parse_sample: "parse_pivot_rules sample_grid = Inr sample_df"
  by (simp only: parse_pivot_rules_def sample_header_and_data sum.case prod.case
      sample_check_labels option.case Let_def sample_data_def[symmetric] sample_str_accessor_ok
      not_True_eq_False if_False sample_rows)

text \<open>
  Claim C4, as the program has it. The parser fails with the error of the missing header
  exactly when no row of the sheet holds both marker labels as cells. When some row
  does, the header row is the first such row and the rows after it are the data rows;
  the parser returns either an error or a whole table.
\<close>

theorem header_not_found_iff_no_marker_row:
  "(parse_pivot_rules g = Inl HeaderNotFound \<longleftrightarrow> (\<forall>r\<in>set g. \<not> is_header r)) \<and>
   ((\<exists>r\<in>set g. is_header r) \<longrightarrow>
      (\<exists>h<length g. is_header (g ! h) \<and> (\<forall>j<h. \<not> is_header (g ! j)) \<and>
         header_and_data g =
           Inr (map strip_label (pad (width g) (g ! h)), map (pad (width g)) (drop (Suc h) g))))"
  using parse_HeaderNotFound[of g] header_first[of g] by blast

lemma sample_is_header: "is_header (sample_grid ! 1) \<and> \<not> is_header (sample_grid ! 0)"
  by code_simp

theorem header_not_found_iff_no_marker_row_witness:
  "is_header (sample_grid ! 1) \<and> \<not> is_header (sample_grid ! 0) \<and>
   parse_pivot_rules sample_grid \<noteq> Inl HeaderNotFound"
proof -
  have "sample_grid ! 1 \<in> set sample_grid" by (simp add: sample_grid_def)
  with sample_is_header have "\<exists>r\<in>set sample_grid. is_header r" by blast
  with header_not_found_iff_no_marker_row[of sample_grid] sample_is_header show ?thesis by blast
qed

lemma sample_short_parse: "parse_pivot_rules sample_short_grid = Inl (KeyError ''Modules(tags)'')"
  by code_simp

text \<open>
  Claim C4 as stated fails: a sheet whose header row holds both marker labels and no
  other label has a header row, and the parser fails on it with a KeyError.
\<close>

theorem header_found_and_parse_fails:
  "(\<exists>r\<in>set sample_short_grid. is_header r) \<and>
   parse_pivot_rules sample_short_grid = Inl (KeyError ''Modules(tags)'')"
  by (simp add: sample_short_parse) (simp add: sample_short_grid_def is_header_def)

lemma search_iff: "search pat s \<longleftrightarrow> (\<exists>u v. s = u @ pat @ v)"
proof (induction s)
  case Nil
  show ?case by auto
next
  case (Cons c cs)
  show ?case
  proof
    assume "search pat (c # cs)"
    then consider "take (length pat) (c # cs) = pat" | "search pat cs" by auto
    then show "\<exists>u v. c # cs = u @ pat @ v"
    proof cases
      case 1
      then have "c # cs = [] @ pat @ drop (length pat) (c # cs)"
        by (metis append_Nil append_take_drop_id)
      then show ?thesis by blast
    next
      case 2
      with Cons.IH obtain u v where "cs = u @ pat @ v" by blast
      then have "c # cs = (c # u) @ pat @ v" by simp
      then show ?thesis by blast
    qed
  next
    assume "\<exists>u v. c # cs = u @ pat @ v"
    then obtain u v where uv: "c # cs = u @ pat @ v" by blast
    show "search pat (c # cs)"
    proof (cases u)
      case Nil
      with uv have "take (length pat) (c # cs) = pat" by simp
      then show ?thesis by simp
    next
      case (Cons a u')
      with uv have "cs = u' @ pat @ v" by simp
      with Cons.IH have "search pat cs" by blast
      then show ?thesis by simp
    qed
  qed
qed

lemma rstrip_prefix: "\<exists>w. s = rstrip s @ w"
proof -
  have "rev (takeWhile is_space (rev s) @ dropWhile is_space (rev s)) = s"
    by (simp only: takeWhile_dropWhile_id rev_rev_ident)
  then have "rev (dropWhile is_space (rev s)) @ rev (takeWhile is_space (rev s)) = s"
    by (simp only: rev_append)
  then have "s = rstrip s @ rev (takeWhile is_space (rev s))"
    by (simp only: rstrip_def)
  then show ?thesis by blast
qed

lemma strip_hd_last:
  assumes "strip s \<noteq> []"
  shows "\<not> is_space (hd (strip s)) \<and> \<not> is_space (last (strip s))"
proof -
  let ?t = "lstrip s"
  obtain w where w: "?t = rstrip ?t @ w" using rstrip_prefix by blast
  have ne: "rstrip ?t \<noteq> []" using assms by (simp add: strip_def)
  then have t: "?t \<noteq> []" using w by auto
  have "hd (rstrip ?t) = hd ?t" using w ne by (metis hd_append2)
  moreover have "\<not> is_space (hd ?t)" using t by (simp add: lstrip_def hd_dropWhile)
  ultimately have h: "\<not> is_space (hd (strip s))" by (simp add: strip_def)
  have d: "dropWhile is_space (rev ?t) \<noteq> []" using ne by (simp add: rstrip_def)
  have "last (rstrip ?t) = hd (dropWhile is_space (rev ?t))"
    using d by (simp add: rstrip_def last_rev)
  moreover have "\<not> is_space (hd (dropWhile is_space (rev ?t)))"
    using d by (rule hd_dropWhile)
  ultimately have "\<not> is_space (last (strip s))" by (simp add: strip_def)
  with h show ?thesis by simp
qed

lemma strip_fixed:
  assumes "s \<noteq> []" "\<not> is_space (hd s)" "\<not> is_space (last s)"
  shows "strip s = s"
proof -
  have a: "lstrip s = s" using assms(1,2) by (cases s) (simp_all add: lstrip_def)
  have "rev s \<noteq> []" using assms(1) by simp
  then obtain c cs where r: "rev s = c # cs" by (cases "rev s") auto
  have "hd (rev s) = last s" using assms(1) by (simp add: hd_rev)
  with r have "c = last s" by simp
  with assms(3) have "dropWhile is_space (c # cs) = c # cs" by simp
  with r have "dropWhile is_space (rev s) = rev s" by simp
  then have "rstrip s = s" by (simp add: rstrip_def)
  with a show ?thesis by (simp add: strip_def)
qed

lemma strip_idem: "strip (strip s) = strip s"
proof (cases "strip s = []")
  case True
  have "strip [] = []" by (simp add: strip_def lstrip_def rstrip_def)
  with True show ?thesis by simp
next
  case False
  then show ?thesis using strip_hd_last[OF False] by (intro strip_fixed) simp_all
qed

lemma supplier_rows_props:
  assumes "r \<in> set (supplier_rows df)"
  shows "supplier r \<noteq> [] \<and> strip (supplier r) = supplier r \<and>
         \<not> contains_nocase grand_total (supplier r)"
proof -
  from assms have m: "r \<in> strip_supplier ` set df" and ne: "supplier r \<noteq> []"
    and gt: "\<not> contains_nocase grand_total (supplier r)"
    by (auto simp: supplier_rows_def Let_def)
  from m obtain r0 where "r = strip_supplier r0" by blast
  then have "supplier r = strip (astype_str (supplier r0))"
    by (simp add: strip_supplier_def)
  then have "strip (supplier r) = supplier r" by (simp add: strip_idem)
  with ne gt show ?thesis by simp
qed

lemma set_drop_dups: "set (drop_dups seen df) \<subseteq> set df"
  by (induction seen df rule: drop_dups.induct) auto

lemma distinct_drop_dups:
  "distinct (map snd (drop_dups seen df)) \<and> snd ` set (drop_dups seen df) \<inter> set seen = {}"
proof (induction seen df rule: drop_dups.induct)
  case (1 seen)
  show ?case by simp
next
  case (2 seen i r df)
  show ?case
  proof (cases "r \<in> set seen")
    case True
    with 2 show ?thesis by simp
  next
    case False
    with 2 show ?thesis by auto
  qed
qed

lemma sorted_drop_dups:
  "sorted_wrt (<) (map fst df) \<Longrightarrow> sorted_wrt (<) (map fst (drop_dups seen df))"
proof (induction seen df rule: drop_dups.induct)
  case (1 seen)
  show ?case by simp
next
  case (2 seen i r df)
  have sub: "set (drop_dups (r # seen) df) \<subseteq> set df" by (rule set_drop_dups)
  show ?case
  proof (cases "r \<in> set seen")
    case True
    with 2 show ?thesis by simp
  next
    case False
    with 2 sub show ?thesis by (auto simp: subset_iff)
  qed
qed

lemma hd_drop_dups: "df \<noteq> [] \<Longrightarrow> hd (drop_dups [] df) = hd df"
  by (cases df) auto

lemma map_fst_reset_index: "map fst (reset_index xs) = [0..<length xs]"
  by (simp add: reset_index_def)

lemma map_snd_reset_index: "map snd (reset_index xs) = xs"
  by (simp add: reset_index_def)

lemma parse_Inr:
  assumes "parse_pivot_rules g = Inr t"
  obtains labels data where
    "t = drop_duplicates (reset_index (filter (\<lambda>r. \<not> str_contains_grand_total (segment r))
          (supplier_rows (ffill_keys (map (to_row labels) data)))))"
proof (cases "header_and_data g")
  case (Inl e)
  with assms show ?thesis by (simp add: parse_pivot_rules_def)
next
  case (Inr ld)
  obtain l d where ld: "ld = (l, d)" by (cases ld)
  show ?thesis
  proof (cases "check_labels l")
    case None
    with assms Inr ld
    have "t = drop_duplicates (reset_index (filter (\<lambda>r. \<not> str_contains_grand_total (segment r))
          (supplier_rows (ffill_keys (map (to_row l) d)))))"
      by (simp add: parse_pivot_rules_def Let_def split: if_splits)
    then show ?thesis by (rule that)
  next
    case (Some e)
    with assms Inr ld show ?thesis by (simp add: parse_pivot_rules_def)
  qed
qed

text \<open>
  Claim C3. Every row of a table the parser returns has a supplier that is not empty
  and is trimmed, and neither its supplier nor its segment contains the text of the
  grand total marker anywhere, letter case ignored.
\<close>

theorem parsed_rows_supplier_and_grand_total:
  assumes "parse_pivot_rules g = Inr t"
  shows "\<forall>ir\<in>set t.
           supplier (snd ir) \<noteq> [] \<and> strip (supplier (snd ir)) = supplier (snd ir) \<and>
           \<not> contains_nocase grand_total (supplier (snd ir)) \<and>
           \<not> str_contains_grand_total (segment (snd ir)) \<and>
           (\<forall>u v. lower (supplier (snd ir)) \<noteq> u @ lower grand_total @ v) \<and>
           (\<forall>s u v. segment (snd ir) = Str s \<longrightarrow> lower s \<noteq> u @ lower grand_total @ v)"
proof
  fix ir assume ir: "ir \<in> set t"
  from assms obtain labels data where
    t: "t = drop_duplicates (reset_index (filter (\<lambda>r. \<not> str_contains_grand_total (segment r))
          (supplier_rows (ffill_keys (map (to_row labels) data)))))"
    by (rule parse_Inr)
  let ?rows = "supplier_rows (ffill_keys (map (to_row labels) data))"
  let ?kept = "filter (\<lambda>r. \<not> str_contains_grand_total (segment r)) ?rows"
  have "ir \<in> set (reset_index ?kept)"
    using ir t set_drop_dups[of "[]" "reset_index ?kept"] by (auto simp: drop_duplicates_def)
  then have "snd ir \<in> set (map snd (reset_index ?kept))" by (simp del: map_snd_reset_index)
  then have k: "snd ir \<in> set ?kept" by (simp only: map_snd_reset_index)
  then have seg: "\<not> str_contains_grand_total (segment (snd ir))" and r: "snd ir \<in> set ?rows"
    by simp_all
  from supplier_rows_props[OF r] have s: "supplier (snd ir) \<noteq> []"
    "strip (supplier (snd ir)) = supplier (snd ir)"
    "\<not> contains_nocase grand_total (supplier (snd ir))" by simp_all
  have a: "\<forall>u v. lower (supplier (snd ir)) \<noteq> u @ lower grand_total @ v"
    using s(3) by (simp add: contains_nocase_def search_iff)
  have b: "\<forall>s u v. segment (snd ir) = Str s \<longrightarrow> lower s \<noteq> u @ lower grand_total @ v"
  proof (intro allI impI)
    fix s u v assume "segment (snd ir) = Str s"
    with seg have "\<not> search (lower grand_total) (lower s)"
      by (simp add: contains_nocase_def)
    then show "lower s \<noteq> u @ lower grand_total @ v"
      unfolding search_iff by blast
  qed
  from s seg a b show "supplier (snd ir) \<noteq> [] \<and> strip (supplier (snd ir)) = supplier (snd ir) \<and>
           \<not> contains_nocase grand_total (supplier (snd ir)) \<and>
           \<not> str_contains_grand_total (segment (snd ir)) \<and>
           (\<forall>u v. lower (supplier (snd ir)) \<noteq> u @ lower grand_total @ v) \<and>
           (\<forall>s u v. segment (snd ir) = Str s \<longrightarrow> lower s \<noteq> u @ lower grand_total @ v)"
    by blast
qed

theorem parsed_rows_supplier_and_grand_total_witness:
  "parse_pivot_rules sample_grid = Inr sample_df \<and>
   supplier (snd (sample_df ! 1)) = ''Acme'' \<and>
   \<not> contains_nocase grand_total ''Acme'' \<and>
   \<not> str_contains_grand_total (Str ''Finance'')"
proof -
  have m: "sample_df ! 1 \<in> set sample_df" by (simp add: sample_df_def)
  have v: "supplier (snd (sample_df ! 1)) = ''Acme''" "segment (snd (sample_df ! 1)) = Str ''Finance''"
    by (simp_all add: sample_df_def sample_row_def)
  from parsed_rows_supplier_and_grand_total[OF parse_sample] m
  have "\<not> contains_nocase grand_total (supplier (snd (sample_df ! 1))) \<and>
        \<not> str_contains_grand_total (segment (snd (sample_df ! 1)))" by blast
  with v parse_sample show ?thesis by simp
qed

text \<open>
  A table the parser returns has no two rows equal in all columns, and its index labels
  are strictly increasing and start at 0.
\<close>

lemma parsed_rows_distinct_index_increasing:
  assumes "parse_pivot_rules g = Inr t"
  shows "distinct (map snd t) \<and> sorted_wrt (<) (map fst t) \<and> (t \<noteq> [] \<longrightarrow> fst (hd t) = 0)"
proof -
  from assms obtain labels data where
    t: "t = drop_duplicates (reset_index (filter (\<lambda>r. \<not> str_contains_grand_total (segment r))
          (supplier_rows (ffill_keys (map (to_row labels) data)))))"
    by (rule parse_Inr)
  let ?kept = "filter (\<lambda>r. \<not> str_contains_grand_total (segment r))
          (supplier_rows (ffill_keys (map (to_row labels) data)))"
  have t': "t = drop_dups [] (reset_index ?kept)" using t by (simp add: drop_duplicates_def)
  have d: "distinct (map snd t)" unfolding t' using distinct_drop_dups by blast
  have "sorted_wrt (<) (map fst (reset_index ?kept))"
    by (simp add: map_fst_reset_index)
  then have s: "sorted_wrt (<) (map fst t)" unfolding t' by (rule sorted_drop_dups)
  have h: "t \<noteq> [] \<longrightarrow> fst (hd t) = 0"
  proof
    assume ne: "t \<noteq> []"
    then have r: "reset_index ?kept \<noteq> []" unfolding t' by auto
    then have k: "?kept \<noteq> []" by (auto simp: reset_index_def)
    have "hd t = hd (reset_index ?kept)" unfolding t' using r by (rule hd_drop_dups)
    then have "fst (hd t) = hd (map fst (reset_index ?kept))" using r by (simp add: hd_map)
    also have "\<dots> = hd [0..<length ?kept]" by (simp only: map_fst_reset_index)
    also have "\<dots> = 0" using k by (simp add: hd_upt del: upt_rec_numeral upt.simps)
    finally show "fst (hd t) = 0" .
  qed
  from d s h show ?thesis by blast
qed

text \<open>
  Claim C6, on the sample sheet. The table returned has no two rows equal in all
  columns, as claimed. Its index is not the dense sequence claimed: line 49 numbers the
  rows 0 to 4, line 50 then drops the repeated row with label 2, and the labels left
  are 0, 1, 3, 4, where numbering after the removal gives 0, 1, 2, 3.
\<close>

theorem parsed_index_not_dense:
  "parse_pivot_rules sample_grid = Inr sample_df \<and>
   distinct (map snd sample_df) \<and>
   map fst sample_df = [0, 1, 3, 4] \<and>
   map fst (reset_index (map snd sample_df)) = [0, 1, 2, 3] \<and>
   map fst sample_df \<noteq> [0..<length sample_df]"
proof -
  have d: "distinct (map snd sample_df)"
    using parsed_rows_distinct_index_increasing[OF parse_sample] by blast
  have i: "map fst sample_df = [0, 1, 3, 4]" by (simp add: sample_df_def)
  have l: "length sample_df = 4" by (simp add: sample_df_def)
  have r: "map fst (reset_index (map snd sample_df)) = [0, 1, 2, 3]"
    by (simp only: map_fst_reset_index length_map l) (simp add: upt_rec)
  have n: "map fst sample_df \<noteq> [0..<length sample_df]"
    by (simp only: i l) (simp add: upt_rec)
  from parse_sample d i r n show ?thesis by blast
qed























end
